theory Spec2Isabelle
  imports Complex_Main "HOL-Library.Sublist" "HOL-Library.Product_Lexorder"
begin

section \<open>Values\<close>

text \<open>
  The engine of \<^verbatim>\<open>lib/evaluator.ts\<close> works on data that is loaded from the data store as
  JSON: profiles, rules, products and event payloads. A value is therefore a JSON value.
  An object is the list of its own entries in enumeration order. Numbers are exact
  rationals: the rounding of IEEE doubles is not part of the model. The JavaScript value
  \<^verbatim>\<open>undefined\<close> never occurs inside JSON data; it is the result of reading a property that
  does not exist, and is modelled by \<open>None\<close> of \<open>json option\<close>. Members inherited from the
  built-in prototypes (\<^verbatim>\<open>toString\<close>, \<^verbatim>\<open>push\<close>, ...) are not modelled: only own properties
  are read.
\<close>

datatype json =
    JNull
  | JBool bool
  | JNum rat
  | JStr string
  | JArr "json list"
  | JObj "(string \<times> json) list"

text \<open>
  The result of the coercion \<^verbatim>\<open>Number(v)\<close>: parsing a string may give \<^verbatim>\<open>NaN\<close> or an
  infinity.
\<close>

datatype jsnum = NaN | NegInf | Fin rat | PosInf

fun num_lt :: "jsnum \<Rightarrow> jsnum \<Rightarrow> bool" where
  "num_lt NaN _ = False"
| "num_lt _ NaN = False"
| "num_lt (Fin a) (Fin b) = (a < b)"
| "num_lt _ NegInf = False"
| "num_lt NegInf _ = True"
| "num_lt PosInf _ = False"
| "num_lt _ PosInf = True"

fun num_le :: "jsnum \<Rightarrow> jsnum \<Rightarrow> bool" where
  "num_le NaN _ = False"
| "num_le _ NaN = False"
| "num_le a b = (\<not> num_lt b a)"

text \<open>
  Three operations of the language runtime are parameters of the model: the printing of a
  number (\<^verbatim>\<open>String(n)\<close>, also used by template literals), the parsing of a string as a
  number (\<^verbatim>\<open>Number(s)\<close>) and \<^verbatim>\<open>toLowerCase\<close>. Every theorem holds for all of them.
\<close>

record host =
  numToStr :: "rat \<Rightarrow> string"
  strToNum :: "string \<Rightarrow> jsnum"
  toLowerCase :: "string \<Rightarrow> string"

fun join :: "string \<Rightarrow> string list \<Rightarrow> string" where
  "join sep [] = []"
| "join sep [x] = x"
| "join sep (x # y # ys) = x @ sep @ join sep (y # ys)"

text \<open>\<^verbatim>\<open>String(v)\<close>: an array prints its elements separated by commas, \<^verbatim>\<open>null\<close> elements as
  the empty string.\<close>

fun String_js :: "host \<Rightarrow> json \<Rightarrow> string" where
  "String_js H JNull = ''null''"
| "String_js H (JBool b) = (if b then ''true'' else ''false'')"
| "String_js H (JNum n) = numToStr H n"
| "String_js H (JStr s) = s"
| "String_js H (JArr xs) =
     join '','' (map (\<lambda>x. case x of JNull \<Rightarrow> [] | _ \<Rightarrow> String_js H x) xs)"
| "String_js H (JObj kvs) = ''[object Object]''"

text \<open>\<^verbatim>\<open>Number(v)\<close>: arrays and objects are first converted to their string.\<close>

fun Number_js :: "host \<Rightarrow> json \<Rightarrow> jsnum" where
  "Number_js H JNull = Fin 0"
| "Number_js H (JBool b) = Fin (if b then 1 else 0)"
| "Number_js H (JNum n) = Fin n"
| "Number_js H (JStr s) = strToNum H s"
| "Number_js H v = strToNum H (String_js H v)"

section \<open>Path resolution\<close>

text \<open>\<^verbatim>\<open>path.split('.')\<close>: the result is never empty.\<close>

fun split :: "char \<Rightarrow> string \<Rightarrow> string list" where
  "split c [] = [[]]"
| "split c (x # xs) =
     (if x = c then [] # split c xs
      else (case split c xs of [] \<Rightarrow> [[x]] | p # ps \<Rightarrow> (x # p) # ps))"

text \<open>
  A property name is an array index when it is the canonical decimal numeral of a number:
  digits only, and no leading zero except for \<^verbatim>\<open>"0"\<close> itself.
\<close>

definition digitVal :: "char \<Rightarrow> nat" where
  "digitVal c = of_char c - of_char CHR ''0''"

definition isDigit :: "char \<Rightarrow> bool" where
  "isDigit c \<longleftrightarrow> of_char CHR ''0'' \<le> (of_char c :: nat) \<and> (of_char c :: nat) \<le> of_char CHR ''9''"

definition arrayIndex :: "string \<Rightarrow> nat option" where
  "arrayIndex s =
     (if s \<noteq> [] \<and> list_all isDigit s \<and> (s = ''0'' \<or> hd s \<noteq> CHR ''0'')
      then Some (foldl (\<lambda>n c. 10 * n + digitVal c) 0 s) else None)"

text \<open>
  The property read \<^verbatim>\<open>current[part]\<close> on a value whose \<^verbatim>\<open>typeof\<close> is \<^verbatim>\<open>'object'\<close>. An
  array has its elements and its \<^verbatim>\<open>length\<close> as own properties.
\<close>

fun getProp :: "json \<Rightarrow> string \<Rightarrow> json option" where
  "getProp (JObj kvs) k = map_of kvs k"
| "getProp (JArr xs) k =
     (case arrayIndex k of
        Some i \<Rightarrow> (if i < length xs then Some (xs ! i) else None)
      | None \<Rightarrow> (if k = ''length'' then Some (JNum (of_nat (length xs))) else None))"
| "getProp _ k = None"

text \<open>\<^verbatim>\<open>typeof v === 'object'\<close> holds of \<^verbatim>\<open>null\<close>, of arrays and of objects.\<close>

fun typeofObject :: "json \<Rightarrow> bool" where
  "typeofObject JNull = True"
| "typeofObject (JArr _) = True"
| "typeofObject (JObj _) = True"
| "typeofObject _ = False"

text \<open>The loop of \<^verbatim>\<open>getByPath\<close> over the parts of the path; \<open>current\<close> is \<open>None\<close> when it
  is \<^verbatim>\<open>undefined\<close>.\<close>

fun walk :: "json option \<Rightarrow> string list \<Rightarrow> json option" where
  "walk current [] = current"
| "walk current (part # parts) =
     (case current of
        None \<Rightarrow> None
      | Some JNull \<Rightarrow> None
      | Some v \<Rightarrow> (if \<not> typeofObject v then None else walk (getProp v part) parts))"

definition getByPath :: "json \<Rightarrow> string \<Rightarrow> json option" where
  "getByPath obj path = walk (Some obj) (split CHR ''.'' path)"

section \<open>Conditions\<close>

text \<open>\<open>sourceValue\<close> is \<open>None\<close> when it is \<^verbatim>\<open>undefined\<close>.\<close>

definition checkCondition :: "host \<Rightarrow> json option \<Rightarrow> string \<Rightarrow> json \<Rightarrow> bool" where
  "checkCondition H sourceValue op targetValue =
     (case sourceValue of
        None \<Rightarrow> False
      | Some JNull \<Rightarrow> False
      | Some sv \<Rightarrow>
          if op = ''>'' then num_lt (Number_js H targetValue) (Number_js H sv)
          else if op = ''<'' then num_lt (Number_js H sv) (Number_js H targetValue)
          else if op = ''>='' then num_le (Number_js H targetValue) (Number_js H sv)
          else if op = ''<='' then num_le (Number_js H sv) (Number_js H targetValue)
          else if op = ''='' then
            toLowerCase H (String_js H sv) = toLowerCase H (String_js H targetValue)
          else if op = ''contains'' then
            sublist (toLowerCase H (String_js H targetValue)) (toLowerCase H (String_js H sv))
          else if op = ''in'' then
            (case targetValue of
               JArr vs \<Rightarrow>
                 list_ex (\<lambda>v. toLowerCase H (String_js H v) = toLowerCase H (String_js H sv)) vs
             | _ \<Rightarrow> False)
          else False)"

section \<open>Profiles and effects\<close>

text \<open>
  The records follow \<^verbatim>\<open>lib/types.ts\<close>. A field whose name is taken in HOL or by another
  record has a prefix: \<^verbatim>\<open>type\<close> is \<open>ev_type\<close> in an event and \<open>eff_type\<close> in an effect,
  \<^verbatim>\<open>id\<close> and \<^verbatim>\<open>name\<close> are \<open>rule_id\<close>, \<open>rule_name\<close>, \<open>product_id\<close> and \<open>product_name\<close>, and the
  \<^verbatim>\<open>value\<close> of a condition is \<open>cvalue\<close>. Time stamps and the other fields that the engine
  never reads are left out of rules and products.
\<close>

record Profile =
  customer_id :: string
  static_data :: "(string \<times> json) list"
  behavioral :: "(string \<times> json) list"
  scores :: "(string \<times> rat) list"
  tags :: "string list"
  last_updated :: string

datatype RuleEvent = LOGIN | SALARY_CREDIT | TRANSFER_POSTED | MARKETPLACE_VIEW

record SimulationEvent =
  ev_type :: RuleEvent
  payload :: "(string \<times> json) list"

definition buildContext :: "Profile \<Rightarrow> SimulationEvent \<Rightarrow> json" where
  "buildContext profile event =
     JObj [(''event'', JObj (payload event)),
           (''profile'', JObj [(''static'', JObj (static_data profile)),
                               (''behavioral'', JObj (behavioral profile)),
                               (''scores'', JObj (map (\<lambda>(k, v). (k, JNum v)) (scores profile))),
                               (''tags'', JArr (map JStr (tags profile)))])]"

text \<open>
  \<^verbatim>\<open>JSON.parse(JSON.stringify(v))\<close> rebuilds a JSON value from its parts.
\<close>

primrec jsonClone :: "json \<Rightarrow> json" where
  "jsonClone JNull = JNull"
| "jsonClone (JBool b) = JBool b"
| "jsonClone (JNum n) = JNum n"
| "jsonClone (JStr s) = JStr s"
| "jsonClone (JArr xs) = JArr (map jsonClone xs)"
| "jsonClone (JObj kvs) = JObj (map (map_prod id jsonClone) kvs)"

definition cloneProfile :: "Profile \<Rightarrow> Profile" where
  "cloneProfile p =
     \<lparr>customer_id = customer_id p,
      static_data = map (map_prod id jsonClone) (static_data p),
      behavioral = map (map_prod id jsonClone) (behavioral p),
      scores = map (map_prod id id) (scores p),
      tags = map id (tags p),
      last_updated = last_updated p\<rparr>"

text \<open>The fields of an effect other than its type are optional.\<close>

record Effect =
  eff_type :: string
  eff_score :: "string option"
  eff_delta :: "rat option"
  eff_tag :: "string option"

text \<open>The assignment \<^verbatim>\<open>obj[k] = v\<close>: an existing entry keeps its place, a new one is
  added at the end.\<close>

fun setProp :: "string \<Rightarrow> 'v \<Rightarrow> (string \<times> 'v) list \<Rightarrow> (string \<times> 'v) list" where
  "setProp k v [] = [(k, v)]"
| "setProp k v ((k', v') # kvs) =
     (if k' = k then (k, v) # kvs else (k', v') # setProp k v kvs)"

text \<open>\<^verbatim>\<open>scores[name] || 0\<close>: a missing entry and a zero entry both give 0.\<close>

definition scoreOr0 :: "(string \<times> rat) list \<Rightarrow> string \<Rightarrow> rat" where
  "scoreOr0 scs name = (case map_of scs name of None \<Rightarrow> 0 | Some v \<Rightarrow> (if v \<noteq> 0 then v else 0))"

text \<open>The characters outside ASCII that the descriptions use, in UTF-8.\<close>

definition arrow :: string where
  "arrow = [CHR 0xE2, CHR 0x86, CHR 0x92]"

definition checkMark :: string where
  "checkMark = [CHR 0xE2, CHR 0x9C, CHR 0x93]"

definition crossMark :: string where
  "crossMark = [CHR 0xE2, CHR 0x9C, CHR 0x97]"

definition geSign :: string where
  "geSign = [CHR 0xE2, CHR 0x89, CHR 0xA5]"

definition dquote :: string where
  "dquote = [CHR 0x22]"

text \<open>
  \<^verbatim>\<open>applyEffect\<close> returns the description and the new profile. A string is truthy when it
  is not empty, so \<^verbatim>\<open>effect.score && ...\<close> and \<^verbatim>\<open>effect.tag && ...\<close> fail on a missing
  field and on an empty one alike.
\<close>

definition applyEffect :: "host \<Rightarrow> Profile \<Rightarrow> Effect \<Rightarrow> string \<times> Profile" where
  "applyEffect H profile effect =
     (let newProfile = cloneProfile profile in
      if eff_type effect = ''scoreDelta'' then
        (case (eff_score effect, eff_delta effect) of
           (Some s, Some d) \<Rightarrow>
             if s \<noteq> [] then
               (let currentScore = scoreOr0 (scores newProfile) s;
                    newScore = currentScore + d;
                    sign = (if d \<ge> 0 then ''+'' else [])
                in (s @ '' '' @ sign @ numToStr H d @ '' ('' @ numToStr H currentScore
                      @ '' '' @ arrow @ '' '' @ numToStr H newScore @ '')'',
                    newProfile\<lparr>scores := setProp s newScore (scores newProfile)\<rparr>))
             else ([], newProfile)
         | _ \<Rightarrow> ([], newProfile))
      else if eff_type effect = ''addTag'' then
        (case eff_tag effect of
           Some t \<Rightarrow>
             if t \<noteq> [] \<and> t \<notin> set (tags newProfile) then
               (''Added tag '' @ dquote @ t @ dquote,
                newProfile\<lparr>tags := tags newProfile @ [t]\<rparr>)
             else ([], newProfile)
         | None \<Rightarrow> ([], newProfile))
      else if eff_type effect = ''removeTag'' then
        (case eff_tag effect of
           Some t \<Rightarrow>
             if t \<noteq> [] then
               (if t \<in> set (tags newProfile) then
                  (''Removed tag '' @ dquote @ t @ dquote,
                   newProfile\<lparr>tags := remove1 t (tags newProfile)\<rparr>)
                else ([], newProfile))
             else ([], newProfile)
         | None \<Rightarrow> ([], newProfile))
      else ([], newProfile))"

section \<open>The rule engine\<close>

datatype RuleStatus = DRAFT | ACTIVE | INACTIVE

record Condition =
  source :: string
  op :: string
  cvalue :: json

record Rule =
  rule_id :: string
  rule_name :: string
  status :: RuleStatus
  priority :: int
  event :: RuleEvent
  conditions :: "Condition list"
  effects :: "Effect list"

record TraceEntry =
  ruleId :: string
  ruleName :: string
  effectDescription :: string

text \<open>
  \<^verbatim>\<open>Array.prototype.sort\<close> with a comparator is a stable sort: an element goes before
  another when the comparator is negative, and elements that compare as equal keep their
  order. Both comparators of the engine are consistent, so the sorted arrangement is
  unique; inserting the elements from the right, each before the first element it does
  not have to follow, computes it.
\<close>

fun insertBy :: "('a \<Rightarrow> 'a \<Rightarrow> 'b::{linorder,zero}) \<Rightarrow> 'a \<Rightarrow> 'a list \<Rightarrow> 'a list" where
  "insertBy cmp x [] = [x]"
| "insertBy cmp x (y # ys) = (if cmp x y \<le> 0 then x # y # ys else y # insertBy cmp x ys)"

definition stableSort :: "('a \<Rightarrow> 'a \<Rightarrow> 'b::{linorder,zero}) \<Rightarrow> 'a list \<Rightarrow> 'a list" where
  "stableSort cmp xs = foldr (insertBy cmp) xs []"

text \<open>The body of the loop over the effects of a rule that fires.\<close>

definition effectStep :: "host \<Rightarrow> Profile \<times> string list \<Rightarrow> Effect \<Rightarrow> Profile \<times> string list" where
  "effectStep H st effect =
     (case st of (currentProfile, effectDescriptions) \<Rightarrow>
        (case applyEffect H currentProfile effect of (description, profile') \<Rightarrow>
           (profile', if description \<noteq> [] then effectDescriptions @ [description]
                      else effectDescriptions)))"

definition allConditionsMet :: "host \<Rightarrow> Rule \<Rightarrow> json \<Rightarrow> bool" where
  "allConditionsMet H rule context =
     list_all (\<lambda>condition. checkCondition H (getByPath context (source condition))
                               (op condition) (cvalue condition))
       (conditions rule)"

text \<open>The body of the loop over the matching rules of an event: the state is the running
  profile and the trace.\<close>

definition ruleStep ::
  "host \<Rightarrow> SimulationEvent \<Rightarrow> Profile \<times> TraceEntry list \<Rightarrow> Rule \<Rightarrow> Profile \<times> TraceEntry list" where
  "ruleStep H ev st rule =
     (case st of (currentProfile, trace) \<Rightarrow>
        (let context = buildContext currentProfile ev in
         if allConditionsMet H rule context then
           (case foldl (effectStep H) (currentProfile, []) (effects rule) of
              (profile', effectDescriptions) \<Rightarrow>
                (profile', trace @ [\<lparr>ruleId = rule_id rule, ruleName = rule_name rule,
                                     effectDescription = join ''; '' effectDescriptions\<rparr>]))
         else (currentProfile, trace)))"

definition matchingRules :: "Rule list \<Rightarrow> SimulationEvent \<Rightarrow> Rule list" where
  "matchingRules sortedRules ev =
     filter (\<lambda>r. status r = ACTIVE \<and> event r = ev_type ev) sortedRules"

definition eventStep ::
  "host \<Rightarrow> Rule list \<Rightarrow> Profile \<times> TraceEntry list \<Rightarrow> SimulationEvent \<Rightarrow> Profile \<times> TraceEntry list" where
  "eventStep H sortedRules st ev = foldl (ruleStep H ev) st (matchingRules sortedRules ev)"

text \<open>
  \<^verbatim>\<open>evaluateRules\<close> reads the clock for the time stamp of the result: \<open>now\<close> is
  \<^verbatim>\<open>new Date().toISOString()\<close> at the end of the call.
\<close>

definition evaluateRules ::
  "host \<Rightarrow> string \<Rightarrow> Rule list \<Rightarrow> Profile \<Rightarrow> SimulationEvent list \<Rightarrow> Profile \<times> TraceEntry list" where
  "evaluateRules H now rules initialProfile events =
     (let sortedRules = stableSort (\<lambda>a b. priority b - priority a) rules in
      case foldl (eventStep H sortedRules) (cloneProfile initialProfile, []) events of
        (currentProfile, trace) \<Rightarrow> (currentProfile\<lparr>last_updated := now\<rparr>, trace))"

text \<open>The rules that the loop over the matching rules goes through for one event, in the
  order of the loop.\<close>

definition firingOrder :: "Rule list \<Rightarrow> SimulationEvent \<Rightarrow> Rule list" where
  "firingOrder rules ev = matchingRules (stableSort (\<lambda>a b. priority b - priority a) rules) ev"

section \<open>Recommendations\<close>

record Product =
  product_id :: string
  product_name :: string
  required_scores :: "(string \<times> rat) list option"
  weight_by_score :: "(string \<times> rat) list option"
  exclusions :: "string list option"
  active :: bool

datatype Decision = SHOWN | HIDDEN

record ProductRecommendation =
  product :: Product
  decision :: Decision
  rank :: nat
  score :: rat
  why :: "string list"
  scoreBreakdown :: "(string \<times> rat) list"

text \<open>\<^verbatim>\<open>Math.round(x * 100) / 100\<close>; \<^verbatim>\<open>Math.round\<close> rounds a half upwards.\<close>

definition round2 :: "rat \<Rightarrow> rat" where
  "round2 x = of_int \<lfloor>x * 100 + 1 / 2\<rfloor> / 100"

text \<open>The body of the loop over the required scores: the state is \<open>why\<close>,
  \<open>scoreBreakdown\<close> and \<open>allScoresMet\<close>.\<close>

definition thresholdStep ::
  "host \<Rightarrow> Profile \<Rightarrow> string list \<times> (string \<times> rat) list \<times> bool \<Rightarrow> string \<times> rat
     \<Rightarrow> string list \<times> (string \<times> rat) list \<times> bool" where
  "thresholdStep H profile st entry =
     (case (st, entry) of ((whyLines, breakdown, allScoresMet), (scoreName, threshold)) \<Rightarrow>
        (let profileScore = scoreOr0 (scores profile) scoreName;
             breakdown' = setProp scoreName profileScore breakdown
         in if profileScore \<ge> threshold then
              (whyLines @ [checkMark @ '' '' @ scoreName @ '': '' @ numToStr H profileScore
                             @ '' '' @ geSign @ '' '' @ numToStr H threshold],
               breakdown', allScoresMet)
            else
              (whyLines @ [crossMark @ '' '' @ scoreName @ '': '' @ numToStr H profileScore
                             @ '' < '' @ numToStr H threshold @ '' required''],
               breakdown', False)))"

definition weightStep :: "Profile \<Rightarrow> rat \<Rightarrow> string \<times> rat \<Rightarrow> rat" where
  "weightStep profile rankScore entry =
     (case entry of (scoreName, weight) \<Rightarrow>
        rankScore + scoreOr0 (scores profile) scoreName * weight)"

definition hasExclusion :: "Product \<Rightarrow> Profile \<Rightarrow> bool" where
  "hasExclusion prd profile =
     list_ex (\<lambda>tag. tag \<in> set (tags profile))
       (case exclusions prd of None \<Rightarrow> [] | Some xs \<Rightarrow> xs)"

text \<open>The body of the loop over the active products, up to the entry that is pushed.\<close>

definition recommendOne :: "host \<Rightarrow> Profile \<Rightarrow> Product \<Rightarrow> ProductRecommendation" where
  "recommendOne H profile prd =
     (if hasExclusion prd profile then
        (let matchedExclusion =
               find (\<lambda>tag. tag \<in> set (tags profile))
                 (case exclusions prd of None \<Rightarrow> [] | Some xs \<Rightarrow> xs)
         in \<lparr>product = prd, decision = HIDDEN, rank = 0, score = round2 0,
             why = [''Excluded: customer has '' @ dquote
                      @ (case matchedExclusion of None \<Rightarrow> ''undefined'' | Some t \<Rightarrow> t)
                      @ dquote @ '' tag''],
             scoreBreakdown = []\<rparr>)
      else
        (case foldl (thresholdStep H profile) ([], [], True)
                (case required_scores prd of None \<Rightarrow> [] | Some rs \<Rightarrow> rs) of
           (whyLines, breakdown, allScoresMet) \<Rightarrow>
             (let rankScore = foldl (weightStep profile) 0
                                (case weight_by_score prd of None \<Rightarrow> [] | Some ws \<Rightarrow> ws)
              in \<lparr>product = prd,
                  decision = (if \<not> allScoresMet then HIDDEN else SHOWN),
                  rank = 0, score = round2 rankScore,
                  why = whyLines, scoreBreakdown = breakdown\<rparr>)))"

text \<open>The comparator of the final sort: \<^verbatim>\<open>SHOWN\<close> first, then the higher score.\<close>

definition compareRecs :: "ProductRecommendation \<Rightarrow> ProductRecommendation \<Rightarrow> rat" where
  "compareRecs a b =
     (if decision a \<noteq> decision b then (if decision a = SHOWN then - 1 else 1)
      else score b - score a)"

definition assignRanks :: "ProductRecommendation list \<Rightarrow> ProductRecommendation list" where
  "assignRanks recs = map (\<lambda>(idx, r). r\<lparr>rank := idx + 1\<rparr>) (enumerate 0 recs)"

definition recommend :: "host \<Rightarrow> Product list \<Rightarrow> Profile \<Rightarrow> ProductRecommendation list" where
  "recommend H products profile =
     assignRanks (stableSort compareRecs (map (recommendOne H profile) (filter active products)))"

text \<open>The key that the comparator compares: the decision first, then the score,
  descending.\<close>

definition recKey :: "ProductRecommendation \<Rightarrow> nat \<times> rat" where
  "recKey r = (if decision r = SHOWN then 0 else 1, - score r)"

section \<open>Example data\<close>

text \<open>
  A host for evaluating examples: numbers are printed in plain decimal notation (at most
  17 digits after the point), strings of digits are parsed as numbers and every other
  string as \<^verbatim>\<open>NaN\<close>, and lower-casing acts on the ASCII letters.
\<close>

function showNat :: "nat \<Rightarrow> string" where
  "showNat n =
     (if n < 10 then [char_of (48 + n)] else showNat (n div 10) @ [char_of (48 + n mod 10)])"
  by pat_completeness auto
termination
  by (relation "measure id") auto

declare showNat.simps [simp del]

fun fracDigits :: "nat \<Rightarrow> rat \<Rightarrow> string" where
  "fracDigits 0 r = []"
| "fracDigits (Suc k) r =
     (if r = 0 then []
      else (let d = \<lfloor>r * 10\<rfloor> in char_of (48 + nat d) # fracDigits k (r * 10 - of_int d)))"

definition showRat :: "rat \<Rightarrow> string" where
  "showRat q =
     (let a = \<bar>q\<bar>; i = \<lfloor>a\<rfloor>; f = a - of_int i
      in (if q < 0 then ''-'' else []) @ showNat (nat i)
           @ (if f = 0 then [] else ''.'' @ fracDigits 17 f))"

definition parseDigits :: "string \<Rightarrow> jsnum" where
  "parseDigits s =
     (if list_all isDigit s then Fin (of_nat (foldl (\<lambda>n c. 10 * n + digitVal c) 0 s))
      else NaN)"

definition asciiLower :: "char \<Rightarrow> char" where
  "asciiLower c =
     (if of_char CHR ''A'' \<le> (of_char c :: nat) \<and> (of_char c :: nat) \<le> of_char CHR ''Z''
      then char_of (of_char c + (32 :: nat)) else c)"

definition asciiHost :: host where
  "asciiHost = \<lparr>numToStr = showRat, strToNum = parseDigits, toLowerCase = map asciiLower\<rparr>"

text \<open>The demo profile, products and rules of the repository's seed data.\<close>

definition seedProfile :: Profile where
  "seedProfile =
     \<lparr>customer_id = ''C123'',
      static_data = [(''age'', JNum 30), (''employment'', JStr ''salaried''),
                     (''hasHomeLoan'', JBool False)],
      behavioral = [(''salaryCreditsPerMonth'', JNum 1), (''rentPaymentsPerMonth'', JNum 1),
                    (''marketplaceVisits'', JNum 4)],
      scores = [(''financialStability'', 52), (''homeOwnershipIntent'', 35),
                (''creditReadiness'', 40), (''digitalEngagement'', 20)],
      tags = [],
      last_updated = ''2024-01-01T00:00:00.000Z''\<rparr>"

definition salaryRule :: Rule where
  "salaryRule =
     \<lparr>rule_id = ''r-salary'', rule_name = ''Salary credit boosts stability'',
      status = ACTIVE, priority = 90, event = SALARY_CREDIT,
      conditions = [\<lparr>source = ''event.amount'', op = ''>'', cvalue = JNum 50000\<rparr>],
      effects = [\<lparr>eff_type = ''scoreDelta'', eff_score = Some ''financialStability'',
                   eff_delta = Some 10, eff_tag = None\<rparr>,
                 \<lparr>eff_type = ''addTag'', eff_score = None, eff_delta = None,
                   eff_tag = Some ''stable-income''\<rparr>]\<rparr>"

definition marketplaceRule :: Rule where
  "marketplaceRule =
     \<lparr>rule_id = ''r-marketplace'',
      rule_name = ''Marketplace browsing indicates credit interest'',
      status = DRAFT, priority = 60, event = MARKETPLACE_VIEW,
      conditions = [\<lparr>source = ''event.category'', op = ''='', cvalue = JStr ''loans''\<rparr>],
      effects = [\<lparr>eff_type = ''scoreDelta'', eff_score = Some ''creditReadiness'',
                   eff_delta = Some 8, eff_tag = None\<rparr>,
                 \<lparr>eff_type = ''addTag'', eff_score = None, eff_delta = None,
                   eff_tag = Some ''loan-interest''\<rparr>]\<rparr>"

text \<open>A rule of lower priority on the same event, which fires only on a profile that the
  salary rule has already raised to 60.\<close>

definition stableRule :: Rule where
  "stableRule =
     \<lparr>rule_id = ''r-stable'', rule_name = ''Stable customers are loan ready'',
      status = ACTIVE, priority = 70, event = SALARY_CREDIT,
      conditions = [\<lparr>source = ''profile.scores.financialStability'', op = ''>='',
                     cvalue = JNum 60\<rparr>],
      effects = [\<lparr>eff_type = ''addTag'', eff_score = None, eff_delta = None,
                   eff_tag = Some ''loan-ready''\<rparr>]\<rparr>"

definition salaryEvent :: SimulationEvent where
  "salaryEvent = \<lparr>ev_type = SALARY_CREDIT, payload = [(''amount'', JNum 65000)]\<rparr>"

definition marketplaceEvent :: SimulationEvent where
  "marketplaceEvent = \<lparr>ev_type = MARKETPLACE_VIEW, payload = [(''category'', JStr ''loans'')]\<rparr>"

definition homeLoan :: Product where
  "homeLoan =
     \<lparr>product_id = ''home-loan'', product_name = ''Home Loan'',
      required_scores = Some [(''financialStability'', 60), (''homeOwnershipIntent'', 50)],
      weight_by_score = Some [(''financialStability'', 6 / 10), (''homeOwnershipIntent'', 4 / 10)],
      exclusions = Some [''has-home-loan''], active = True\<rparr>"

definition creditCard :: Product where
  "creditCard =
     \<lparr>product_id = ''credit-card'', product_name = ''Credit Card'',
      required_scores = Some [(''creditReadiness'', 55), (''digitalEngagement'', 30)],
      weight_by_score = Some [(''creditReadiness'', 6 / 10), (''digitalEngagement'', 4 / 10)],
      exclusions = Some [], active = True\<rparr>"

definition personalLoan :: Product where
  "personalLoan =
     \<lparr>product_id = ''personal-loan'', product_name = ''Personal Loan'',
      required_scores = Some [(''financialStability'', 50), (''creditReadiness'', 45)],
      weight_by_score = Some [(''financialStability'', 5 / 10), (''creditReadiness'', 5 / 10)],
      exclusions = Some [], active = True\<rparr>"

text \<open>A profile that already has a home loan, and one with a tag to read by index.\<close>

definition ownerProfile :: Profile where
  "ownerProfile = seedProfile\<lparr>tags := [''renter'', ''has-home-loan'']\<rparr>"

text \<open>A profile on which two of the products are shown and one is hidden.\<close>

definition engagedProfile :: Profile where
  "engagedProfile =
     seedProfile\<lparr>scores := [(''financialStability'', 62), (''homeOwnershipIntent'', 35),
                              (''creditReadiness'', 60), (''digitalEngagement'', 30)]\<rparr>"

section \<open>Deep copies\<close>

lemma jsonClone_id: "jsonClone v = v"
proof (induction v)
  case (JArr xs)
  then show ?case by (simp add: map_idI)
next
  case (JObj kvs)
  have "map (map_prod id jsonClone) kvs = kvs"
  proof (rule map_idI)
    fix kv assume "kv \<in> set kvs"
    with JObj show "map_prod id jsonClone kv = kv"
      by (cases kv) auto
  qed
  then show ?case by simp
qed simp_all

lemma map_jsonClone_entries: "map (map_prod id jsonClone) kvs = kvs"
  by (rule map_idI) (auto simp: jsonClone_id map_prod_def split: prod.splits)

lemma cloneProfile_id: "cloneProfile p = p"
  by (simp add: cloneProfile_def map_jsonClone_entries prod.map_id0)

section \<open>The stable sort\<close>

text \<open>When the comparator is the comparison of a key, the sort is the library's stable
  insertion sort on that key.\<close>

lemma insertBy_insort_key:
  assumes "\<And>x y. cmp x y \<le> 0 \<longleftrightarrow> f x \<le> f y"
  shows "insertBy cmp x ys = insort_key f x ys"
  by (induction ys) (simp_all add: assms)

lemma stableSort_sort_key:
  assumes "\<And>x y. cmp x y \<le> 0 \<longleftrightarrow> f x \<le> f y"
  shows "stableSort cmp xs = sort_key f xs"
  by (induction xs) (simp_all add: stableSort_def sort_key_def insertBy_insort_key [OF assms])

lemma sortedRules_sort_key:
  "stableSort (\<lambda>a b. priority b - priority a) rules = sort_key (\<lambda>r. - priority r) rules"
  by (rule stableSort_sort_key) simp

section \<open>Properties of the condition evaluator\<close>

text \<open>
  C6: whatever the operator (also \<^verbatim>\<open>in\<close> and an unknown one) and whatever the target value,
  \<^verbatim>\<open>checkCondition\<close> returns false when the source value is \<^verbatim>\<open>undefined\<close> or \<^verbatim>\<open>null\<close>.
\<close>

theorem checkCondition_absent_source_false:
  "checkCondition H None op' targetValue = False \<and>
   checkCondition H (Some JNull) op' targetValue = False"
  by (simp add: checkCondition_def)

section \<open>Properties of the effect applicator\<close>



section \<open>Properties of the rule engine\<close>

lemma firingOrder_sort_key:
  "firingOrder rules ev =
     filter (\<lambda>r. status r = ACTIVE \<and> event r = ev_type ev) (sort_key (\<lambda>r. - priority r) rules)"
  by (simp add: firingOrder_def matchingRules_def sortedRules_sort_key)

lemma firingOrder_descending:
  "sorted_wrt (\<lambda>a b. priority b \<le> priority a) (firingOrder rules ev)"
proof -
  have "sorted (map (\<lambda>r. - priority r) (sort_key (\<lambda>r. - priority r) rules))"
    by (rule sorted_sort_key)
  then have "sorted_wrt (\<lambda>a b. priority b \<le> priority a) (sort_key (\<lambda>r. - priority r) rules)"
    by (simp add: sorted_map)
  then show ?thesis
    unfolding firingOrder_sort_key by (rule sorted_wrt_filter)
qed

lemma firingOrder_stable:
  "filter (\<lambda>r. priority r = k) (firingOrder rules ev) =
   filter (\<lambda>r. priority r = k) (filter (\<lambda>r. status r = ACTIVE \<and> event r = ev_type ev) rules)"
proof -
  have eq: "(\<lambda>r. priority r = k) = (\<lambda>r. - priority r = - k)"
    by auto
  have "filter (\<lambda>r. - priority r = - k) (sort_key (\<lambda>r. - priority r) rules) =
        filter (\<lambda>r. - priority r = - k) rules"
    by (rule sort_key_stable)
  then have "filter (\<lambda>r. priority r = k) (sort_key (\<lambda>r. - priority r) rules) =
             filter (\<lambda>r. priority r = k) rules"
    by (simp only: eq)
  then have "filter (\<lambda>r. status r = ACTIVE \<and> event r = ev_type ev)
               (filter (\<lambda>r. priority r = k) (sort_key (\<lambda>r. - priority r) rules)) =
             filter (\<lambda>r. status r = ACTIVE \<and> event r = ev_type ev)
               (filter (\<lambda>r. priority r = k) rules)"
    by simp
  then show ?thesis
    unfolding firingOrder_sort_key by (simp add: conj_commute)
qed

lemma evaluateRules_unfold:
  "evaluateRules H now rules P events =
     (case foldl (\<lambda>st ev. foldl (ruleStep H ev) st (firingOrder rules ev)) (P, []) events of
        (p, tr) \<Rightarrow> (p\<lparr>last_updated := now\<rparr>, tr))"
proof -
  have "eventStep H (stableSort (\<lambda>a b. priority b - priority a) rules) =
        (\<lambda>st ev. foldl (ruleStep H ev) st (firingOrder rules ev))"
    by (intro ext) (simp add: eventStep_def firingOrder_def)
  then show ?thesis
    by (simp add: evaluateRules_def cloneProfile_id)
qed

lemma ruleStep_unfold:
  "ruleStep H ev (p, tr) rule =
     (if \<forall>c \<in> set (conditions rule).
           checkCondition H (getByPath (buildContext p ev) (source c)) (op c) (cvalue c)
      then (fst (foldl (effectStep H) (p, []) (effects rule)),
            tr @ [\<lparr>ruleId = rule_id rule, ruleName = rule_name rule,
                    effectDescription =
                      join ''; '' (snd (foldl (effectStep H) (p, []) (effects rule)))\<rparr>])
      else (p, tr))"
  by (simp add: ruleStep_def allConditionsMet_def list_all_iff split: prod.splits)

text \<open>
  C1: for every event, the \<^verbatim>\<open>ACTIVE\<close> rules on the event's type are gone through in
  descending priority, rules of equal priority in the order of the rule list. The state
  of the run, the running profile and the trace, is handed from each rule to the next and
  from each event to the next, and a rule's conditions are read from the context built
  from the running profile at that moment: what an earlier rule did is seen by every
  later rule of the event and by all later events.
\<close>

theorem evaluateRules_priority_order_running_profile:
  "evaluateRules H now rules P events =
     (case foldl (\<lambda>st ev. foldl (ruleStep H ev) st (firingOrder rules ev)) (P, []) events of
        (p, tr) \<Rightarrow> (p\<lparr>last_updated := now\<rparr>, tr))
   \<and> set (firingOrder rules ev) = {r \<in> set rules. status r = ACTIVE \<and> event r = ev_type ev}
   \<and> sorted_wrt (\<lambda>a b. priority b \<le> priority a) (firingOrder rules ev)
   \<and> filter (\<lambda>r. priority r = k) (firingOrder rules ev) =
       filter (\<lambda>r. priority r = k) (filter (\<lambda>r. status r = ACTIVE \<and> event r = ev_type ev) rules)
   \<and> ruleStep H ev (p, tr) rule =
       (if \<forall>c \<in> set (conditions rule).
             checkCondition H (getByPath (buildContext p ev) (source c)) (op c) (cvalue c)
        then (fst (foldl (effectStep H) (p, []) (effects rule)),
              tr @ [\<lparr>ruleId = rule_id rule, ruleName = rule_name rule,
                      effectDescription =
                        join ''; '' (snd (foldl (effectStep H) (p, []) (effects rule)))\<rparr>])
        else (p, tr))"
proof (intro conjI)
  show "set (firingOrder rules ev) = {r \<in> set rules. status r = ACTIVE \<and> event r = ev_type ev}"
    by (auto simp: firingOrder_sort_key)
qed (rule evaluateRules_unfold firingOrder_descending firingOrder_stable ruleStep_unfold)+

text \<open>The rule of priority 70 is listed first and fires second, on the score that the rule
  of priority 90 has raised; alone it does not fire.\<close>

theorem evaluateRules_priority_order_running_profile_witness:
  "sorted_wrt (\<lambda>a b. priority b \<le> priority a) (firingOrder [stableRule, salaryRule] salaryEvent)
   \<and> map rule_id (firingOrder [stableRule, salaryRule] salaryEvent) = [''r-salary'', ''r-stable'']
   \<and> map ruleId (snd (evaluateRules asciiHost ''2024-06-01T12:00:00.000Z''
                         [stableRule, salaryRule] seedProfile [salaryEvent]))
       = [''r-salary'', ''r-stable'']
   \<and> tags (fst (evaluateRules asciiHost ''2024-06-01T12:00:00.000Z''
                   [stableRule, salaryRule] seedProfile [salaryEvent]))
       = [''stable-income'', ''loan-ready'']
   \<and> map ruleId (snd (evaluateRules asciiHost ''2024-06-01T12:00:00.000Z''
                         [stableRule] seedProfile [salaryEvent])) = []"
proof -
  have ordered:
    "sorted_wrt (\<lambda>a b. priority b \<le> priority a) (firingOrder [stableRule, salaryRule] salaryEvent)"
    using evaluateRules_priority_order_running_profile
      [of asciiHost "''2024-06-01T12:00:00.000Z''" "[stableRule, salaryRule]" seedProfile
          "[salaryEvent]" salaryEvent 90 seedProfile "[]" salaryRule]
    by blast
  have run:
    "map rule_id (firingOrder [stableRule, salaryRule] salaryEvent) = [''r-salary'', ''r-stable'']
     \<and> map ruleId (snd (evaluateRules asciiHost ''2024-06-01T12:00:00.000Z''
                           [stableRule, salaryRule] seedProfile [salaryEvent]))
         = [''r-salary'', ''r-stable'']
     \<and> tags (fst (evaluateRules asciiHost ''2024-06-01T12:00:00.000Z''
                     [stableRule, salaryRule] seedProfile [salaryEvent]))
         = [''stable-income'', ''loan-ready'']
     \<and> map ruleId (snd (evaluateRules asciiHost ''2024-06-01T12:00:00.000Z''
                           [stableRule] seedProfile [salaryEvent])) = []"
    by code_simp
  from ordered run show ?thesis
    by blast
qed

lemma matchingRules_no_active:
  assumes "\<forall>r \<in> set rules. status r \<noteq> ACTIVE"
  shows "matchingRules (stableSort (\<lambda>a b. priority b - priority a) rules) ev = []"
  using assms by (auto simp: matchingRules_def sortedRules_sort_key filter_empty_conv)

text \<open>
  C2: when no rule of the rule set is \<^verbatim>\<open>ACTIVE\<close>, \<^verbatim>\<open>evaluateRules\<close> returns the profile it
  was given, with only \<^verbatim>\<open>last_updated\<close> set anew, and the empty trace, for every profile
  and every list of events.
\<close>

theorem evaluateRules_no_active_rules:
  assumes "\<forall>r \<in> set rules. status r \<noteq> ACTIVE"
  shows "evaluateRules H now rules P events = (P\<lparr>last_updated := now\<rparr>, [])"
proof -
  let ?sorted = "stableSort (\<lambda>a b. priority b - priority a) rules"
  have step: "eventStep H ?sorted st ev = st" for st ev
    by (simp add: eventStep_def matchingRules_no_active [OF assms])
  have "foldl (eventStep H ?sorted) st events = st" for st
    by (induction events) (simp_all add: step)
  then show ?thesis
    by (simp add: evaluateRules_def cloneProfile_id)
qed

theorem evaluateRules_no_active_rules_witness:
  "status marketplaceRule \<noteq> ACTIVE
   \<and> evaluateRules asciiHost ''2024-06-01T12:00:00.000Z'' [marketplaceRule] seedProfile
        [marketplaceEvent]
       = (seedProfile\<lparr>last_updated := ''2024-06-01T12:00:00.000Z''\<rparr>, [])"
  using evaluateRules_no_active_rules
    [of "[marketplaceRule]" asciiHost "''2024-06-01T12:00:00.000Z''" seedProfile
        "[marketplaceEvent]"]
  by (simp add: marketplaceRule_def)

section \<open>Properties of the path resolver\<close>












section \<open>Adding a tag twice\<close>

lemma count_list_distinct:
  "distinct xs \<Longrightarrow> x \<in> set xs \<Longrightarrow> count_list xs x = 1"
  by (induction xs) auto

text \<open>
  C8, as the code has it: for a tag that is not the empty string, \<^verbatim>\<open>addTag\<close> on a profile
  that has the tag returns the profile unchanged and the empty description; on a profile
  that does not have it, it appends the tag and returns a description that is not empty;
  applying the same effect once more changes nothing and describes nothing. When the tags
  of the profile are free of duplicates, so are the tags of the result, and the tag occurs
  in them exactly once.
\<close>

theorem applyEffect_addTag_idempotent:
  assumes "eff_type e = ''addTag''" and "eff_tag e = Some t" and "t \<noteq> []"
  shows "(t \<in> set (tags p) \<longrightarrow> applyEffect H p e = ([], p))
       \<and> (t \<notin> set (tags p) \<longrightarrow>
            applyEffect H p e = (''Added tag '' @ dquote @ t @ dquote, p\<lparr>tags := tags p @ [t]\<rparr>)
            \<and> fst (applyEffect H p e) \<noteq> [])
       \<and> applyEffect H (snd (applyEffect H p e)) e = ([], snd (applyEffect H p e))
       \<and> (distinct (tags p) \<longrightarrow>
            distinct (tags (snd (applyEffect H p e)))
            \<and> count_list (tags (snd (applyEffect H p e))) t = 1)"
proof (intro conjI impI)
  assume "t \<in> set (tags p)"
  then show "applyEffect H p e = ([], p)"
    using assms by (simp add: applyEffect_def cloneProfile_id)
next
  assume "t \<notin> set (tags p)"
  then show "applyEffect H p e = (''Added tag '' @ dquote @ t @ dquote, p\<lparr>tags := tags p @ [t]\<rparr>)"
    using assms by (simp add: applyEffect_def cloneProfile_id)
  then show "fst (applyEffect H p e) \<noteq> []"
    by simp
next
  show "applyEffect H (snd (applyEffect H p e)) e = ([], snd (applyEffect H p e))"
    using assms by (simp add: applyEffect_def cloneProfile_id)
next
  assume "distinct (tags p)"
  then show "distinct (tags (snd (applyEffect H p e)))"
    using assms by (simp add: applyEffect_def cloneProfile_id)
next
  assume d: "distinct (tags p)"
  show "count_list (tags (snd (applyEffect H p e))) t = 1"
  proof (cases "t \<in> set (tags p)")
    case True
    with d have "count_list (tags p) t = 1"
      by (simp add: count_list_distinct)
    with True show ?thesis
      using assms by (simp add: applyEffect_def cloneProfile_id)
  next
    case False
    then have "count_list (tags p) t = 0"
      by (simp add: count_list_0_iff)
    with False show ?thesis
      using assms by (simp add: applyEffect_def cloneProfile_id)
  qed
qed

text \<open>An \<^verbatim>\<open>addTag\<close> of the empty string, which no profile has as a tag, appends nothing and
  describes nothing: the empty string is falsy.\<close>

theorem applyEffect_addTag_empty_tag_counterexample:
  "[] \<notin> set (tags seedProfile)
   \<and> applyEffect asciiHost seedProfile
        \<lparr>eff_type = ''addTag'', eff_score = None, eff_delta = None, eff_tag = Some []\<rparr>
       = ([], seedProfile)"
  by (simp add: applyEffect_def cloneProfile_id seedProfile_def)

theorem applyEffect_addTag_idempotent_witness:
  "eff_type \<lparr>eff_type = ''addTag'', eff_score = None, eff_delta = None,
              eff_tag = Some ''stable-income''\<rparr> = ''addTag''
   \<and> eff_tag \<lparr>eff_type = ''addTag'', eff_score = None, eff_delta = None,
                eff_tag = Some ''stable-income''\<rparr> = Some ''stable-income''
   \<and> ''stable-income'' \<noteq> []
   \<and> ''stable-income'' \<notin> set (tags seedProfile)
   \<and> distinct (tags seedProfile)
   \<and> applyEffect asciiHost seedProfile
        \<lparr>eff_type = ''addTag'', eff_score = None, eff_delta = None,
          eff_tag = Some ''stable-income''\<rparr>
       = (''Added tag '' @ dquote @ ''stable-income'' @ dquote,
          seedProfile\<lparr>tags := tags seedProfile @ [''stable-income'']\<rparr>)
   \<and> ''renter'' \<in> set (tags ownerProfile)
   \<and> applyEffect asciiHost ownerProfile
        \<lparr>eff_type = ''addTag'', eff_score = None, eff_delta = None, eff_tag = Some ''renter''\<rparr>
       = ([], ownerProfile)
   \<and> count_list (tags (snd (applyEffect asciiHost seedProfile
        \<lparr>eff_type = ''addTag'', eff_score = None, eff_delta = None,
          eff_tag = Some ''stable-income''\<rparr>))) ''stable-income'' = 1"
proof -
  note fresh = applyEffect_addTag_idempotent
    [of "\<lparr>eff_type = ''addTag'', eff_score = None, eff_delta = None,
           eff_tag = Some ''stable-income''\<rparr>" "''stable-income''" seedProfile asciiHost]
  note present = applyEffect_addTag_idempotent
    [of "\<lparr>eff_type = ''addTag'', eff_score = None, eff_delta = None,
           eff_tag = Some ''renter''\<rparr>" "''renter''" ownerProfile asciiHost]
  have a: "''stable-income'' \<notin> set (tags seedProfile)" "distinct (tags seedProfile)"
    by (simp_all add: seedProfile_def)
  have b: "''renter'' \<in> set (tags ownerProfile)"
    by (simp add: ownerProfile_def)
  from a b fresh present show ?thesis
    by simp
qed

section \<open>The clock\<close>

lemma thresholdStep_last_updated:
  "thresholdStep H (p\<lparr>last_updated := t\<rparr>) = thresholdStep H p"
  by (intro ext) (simp add: thresholdStep_def)

lemma weightStep_last_updated:
  "weightStep (p\<lparr>last_updated := t\<rparr>) = weightStep p"
  by (intro ext) (simp add: weightStep_def)

lemma recommendOne_last_updated:
  "recommendOne H (p\<lparr>last_updated := t\<rparr>) = recommendOne H p"
  by (intro ext)
    (simp add: recommendOne_def hasExclusion_def thresholdStep_last_updated weightStep_last_updated)

lemma recommend_last_updated:
  "recommend H products (p\<lparr>last_updated := t\<rparr>) = recommend H products p"
  by (simp add: recommend_def recommendOne_last_updated)

text \<open>
  C7, as the code has it: the result of \<^verbatim>\<open>evaluateRules\<close> is a function of the rules, the
  profile and the events, except for \<^verbatim>\<open>last_updated\<close> of the returned profile, which is the
  reading of the clock. Two calls on the same arguments return the same trace and
  profiles that agree in every other field, and \<^verbatim>\<open>recommend\<close>, which reads no clock, gives
  the same list on both.
\<close>

theorem evaluateRules_clock_only_last_updated:
  "evaluateRules H now rules P events =
     (fst (evaluateRules H now' rules P events)\<lparr>last_updated := now\<rparr>,
      snd (evaluateRules H now' rules P events))
   \<and> last_updated (fst (evaluateRules H now rules P events)) = now
   \<and> recommend H products (fst (evaluateRules H now rules P events)) =
       recommend H products (fst (evaluateRules H now' rules P events))"
proof -
  obtain p tr where run:
    "foldl (eventStep H (stableSort (\<lambda>a b. priority b - priority a) rules))
       (cloneProfile P, []) events = (p, tr)"
    by (cases "foldl (eventStep H (stableSort (\<lambda>a b. priority b - priority a) rules))
       (cloneProfile P, []) events") auto
  have eq: "evaluateRules H n rules P events = (p\<lparr>last_updated := n\<rparr>, tr)" for n
    by (simp add: evaluateRules_def run)
  show ?thesis
    by (simp add: eq recommend_last_updated)
qed

text \<open>Two calls on the same arguments, one second apart.\<close>

theorem evaluateRules_clock_counterexample:
  "evaluateRules asciiHost ''2024-06-01T12:00:00.000Z'' [] seedProfile []
     \<noteq> evaluateRules asciiHost ''2024-06-01T12:00:01.000Z'' [] seedProfile []"
  by (simp add: evaluateRules_def stableSort_def cloneProfile_id seedProfile_def)

section \<open>Properties of the recommendation engine\<close>

lemma compareRecs_recKey: "compareRecs a b \<le> 0 \<longleftrightarrow> recKey a \<le> recKey b"
  by (cases "decision a"; cases "decision b") (auto simp: compareRecs_def recKey_def less_eq_prod_def)

lemma sortedRecs_sort_key: "stableSort compareRecs xs = sort_key recKey xs"
  by (rule stableSort_sort_key) (rule compareRecs_recKey)

lemma recKey_eq_iff:
  "recKey r = (if d = SHOWN then 0 else 1, - s) \<longleftrightarrow> decision r = d \<and> score r = s"
  by (cases d; cases "decision r") (auto simp: recKey_def)

lemma length_assignRanks: "length (assignRanks xs) = length xs"
  by (simp add: assignRanks_def)

lemma nth_assignRanks:
  "i < length xs \<Longrightarrow> assignRanks xs ! i = (xs ! i)\<lparr>rank := i + 1\<rparr>"
  by (simp add: assignRanks_def nth_enumerate_eq)

lemma rank_assignRanks: "map rank (assignRanks xs) = [1..<Suc (length xs)]"
proof -
  have "map rank (assignRanks xs) = map Suc [0..<length xs]"
    by (rule nth_equalityI) (simp_all add: length_assignRanks nth_assignRanks)
  then show ?thesis
    by (simp add: map_Suc_upt)
qed

lemma map_assignRanks:
  assumes "\<And>r i. g (r\<lparr>rank := i\<rparr>) = g r"
  shows "map g (assignRanks xs) = map g xs"
  by (rule nth_equalityI) (simp_all add: length_assignRanks nth_assignRanks assms)

lemma filter_ranked:
  assumes "\<And>r i. P (r\<lparr>rank := i\<rparr>) = P r" and "\<And>r i. g (r\<lparr>rank := i\<rparr>) = g r"
  shows "map g (filter P (map (\<lambda>(idx, r). r\<lparr>rank := idx + 1\<rparr>) (enumerate n xs))) =
         map g (filter P xs)"
  by (induction xs arbitrary: n) (simp_all add: assms)

lemma filter_assignRanks:
  assumes "\<And>r i. P (r\<lparr>rank := i\<rparr>) = P r" and "\<And>r i. g (r\<lparr>rank := i\<rparr>) = g r"
  shows "map g (filter P (assignRanks xs)) = map g (filter P xs)"
  unfolding assignRanks_def by (rule filter_ranked) (rule assms)+

lemma rank_recommendOne: "rank (recommendOne H profile prd) = 0"
  by (simp add: recommendOne_def Let_def split: prod.splits)

lemma product_recommendOne: "product (recommendOne H profile prd) = prd"
  by (simp add: recommendOne_def Let_def split: prod.splits)

lemma unrank_candidates:
  "map (\<lambda>r. r\<lparr>rank := 0\<rparr>) (map (recommendOne H profile) ps) = map (recommendOne H profile) ps"
proof -
  have "r\<lparr>rank := rank r\<rparr> = r" for r :: ProductRecommendation
    by simp
  then have "(recommendOne H profile prd)\<lparr>rank := 0\<rparr> = recommendOne H profile prd" for prd
    using rank_recommendOne [of H profile prd] by metis
  then show ?thesis
    by simp
qed

lemma recommend_sort_key:
  "recommend H products profile =
     assignRanks (sort_key recKey (map (recommendOne H profile) (filter active products)))"
  by (simp add: recommend_def sortedRecs_sort_key)

lemma recommend_entries:
  "(\<lambda>r. r\<lparr>rank := 0\<rparr>) ` set (recommend H products profile) =
   recommendOne H profile ` {prd \<in> set products. active prd}"
proof -
  let ?cand = "map (recommendOne H profile) (filter active products)"
  have "map (\<lambda>r. r\<lparr>rank := 0\<rparr>) (recommend H products profile) =
        map (\<lambda>r. r\<lparr>rank := 0\<rparr>) (sort_key recKey ?cand)"
    unfolding recommend_sort_key by (rule map_assignRanks) simp
  then have "set (map (\<lambda>r. r\<lparr>rank := 0\<rparr>) (recommend H products profile)) =
             set (map (\<lambda>r. r\<lparr>rank := 0\<rparr>) (sort_key recKey ?cand))"
    by (rule arg_cong)
  also have "\<dots> = (\<lambda>r. r\<lparr>rank := 0\<rparr>) ` set ?cand"
    by (simp only: set_map set_sort)
  also have "\<dots> = set (map (\<lambda>r. r\<lparr>rank := 0\<rparr>) ?cand)"
    by (simp only: set_map)
  also have "\<dots> = set ?cand"
    by (simp only: unrank_candidates)
  also have "\<dots> = recommendOne H profile ` {prd \<in> set products. active prd}"
    by auto
  finally show ?thesis
    by (simp only: set_map)
qed

lemma recommend_entry_of_product:
  assumes "prd \<in> set products" and "active prd"
  shows "\<exists>r \<in> set (recommend H products profile). r\<lparr>rank := 0\<rparr> = recommendOne H profile prd"
proof -
  from assms have "recommendOne H profile prd \<in> recommendOne H profile ` {prd \<in> set products. active prd}"
    by blast
  then have "recommendOne H profile prd \<in> (\<lambda>r. r\<lparr>rank := 0\<rparr>) ` set (recommend H products profile)"
    by (simp only: recommend_entries)
  then show ?thesis
    by auto
qed

lemma recommend_entry_is_candidate:
  assumes "r \<in> set (recommend H products profile)"
  shows "r\<lparr>rank := 0\<rparr> = recommendOne H profile (product r) \<and> product r \<in> set products \<and> active (product r)"
proof -
  from assms have "r\<lparr>rank := 0\<rparr> \<in> (\<lambda>r. r\<lparr>rank := 0\<rparr>) ` set (recommend H products profile)"
    by blast
  then obtain prd where prd: "prd \<in> set products" "active prd" "r\<lparr>rank := 0\<rparr> = recommendOne H profile prd"
    unfolding recommend_entries by auto
  from prd(3) have "product (r\<lparr>rank := 0\<rparr>) = prd"
    by (simp add: product_recommendOne)
  then have "product r = prd" by simp
  with prd show ?thesis by simp
qed


lemma recKey_assignRanks:
  "map recKey (assignRanks xs) = map recKey xs"
  by (rule map_assignRanks) (simp add: recKey_def)

lemma recommend_keys_sorted: "sorted (map recKey (recommend H products profile))"
  unfolding recommend_sort_key recKey_assignRanks by (rule sorted_sort_key)

lemma recommend_key_mono:
  assumes "i < j" and "j < length (recommend H products profile)"
  shows "recKey (recommend H products profile ! i) \<le> recKey (recommend H products profile ! j)"
proof -
  let ?rs = "recommend H products profile"
  have "map recKey ?rs ! i \<le> map recKey ?rs ! j"
    using recommend_keys_sorted assms by (intro sorted_nth_mono) simp_all
  with assms show ?thesis
    by simp
qed

lemma length_recommend:
  "length (recommend H products profile) = length (filter active products)"
  by (simp add: recommend_sort_key length_assignRanks)

lemma recommend_ties_stable:
  "map (\<lambda>r. r\<lparr>rank := 0\<rparr>)
     (filter (\<lambda>r. decision r = d \<and> score r = s) (recommend H products profile)) =
   filter (\<lambda>r. decision r = d \<and> score r = s)
     (map (recommendOne H profile) (filter active products))"
proof -
  let ?cand = "map (recommendOne H profile) (filter active products)"
  let ?P = "\<lambda>r. decision r = d \<and> score r = s"
  let ?k = "(if d = SHOWN then 0 else 1 :: nat, - s)"
  have P: "?P = (\<lambda>r. recKey r = ?k)"
    by (intro ext) (simp add: recKey_eq_iff)
  have "map (\<lambda>r. r\<lparr>rank := 0\<rparr>) (filter ?P (recommend H products profile)) =
        map (\<lambda>r. r\<lparr>rank := 0\<rparr>) (filter ?P (sort_key recKey ?cand))"
    unfolding recommend_sort_key by (rule filter_assignRanks) simp_all
  also have "filter ?P (sort_key recKey ?cand) = filter ?P ?cand"
    unfolding P by (rule sort_key_stable)
  also have "map (\<lambda>r. r\<lparr>rank := 0\<rparr>) (filter ?P ?cand) = filter ?P ?cand"
  proof (rule map_idI)
    fix r assume "r \<in> set (filter ?P ?cand)"
    then obtain prd where "r = recommendOne H profile prd"
      by auto
    then have "rank r = 0"
      by (simp add: rank_recommendOne)
    then show "r\<lparr>rank := 0\<rparr> = r"
      by (metis ProductRecommendation.update_convs(3) ProductRecommendation.surjective
          ProductRecommendation.select_convs(3))
  qed
  finally show ?thesis .
qed

text \<open>
  C5: for every catalog and profile, the list that \<^verbatim>\<open>recommend\<close> returns has one entry for
  each active product; every \<^verbatim>\<open>SHOWN\<close> entry comes before every \<^verbatim>\<open>HIDDEN\<close> entry; entries of
  the same decision are in descending order of score; entries of the same decision and
  score are in the order of the catalog; and the ranks are 1, 2, ..., N from the first
  entry to the last, N being the number of active products.
\<close>

theorem recommend_order_and_ranks:
  "length (recommend H products profile) = length (filter active products)
   \<and> map rank (recommend H products profile) = [1..<Suc (length (filter active products))]
   \<and> (\<forall>i j. i < j \<and> j < length (recommend H products profile)
          \<and> decision (recommend H products profile ! j) = SHOWN
        \<longrightarrow> decision (recommend H products profile ! i) = SHOWN)
   \<and> (\<forall>i j. i < j \<and> j < length (recommend H products profile)
          \<and> decision (recommend H products profile ! i) = decision (recommend H products profile ! j)
        \<longrightarrow> score (recommend H products profile ! j) \<le> score (recommend H products profile ! i))
   \<and> map (\<lambda>r. r\<lparr>rank := 0\<rparr>)
         (filter (\<lambda>r. decision r = d \<and> score r = s) (recommend H products profile)) =
       filter (\<lambda>r. decision r = d \<and> score r = s)
         (map (recommendOne H profile) (filter active products))"
proof (intro conjI allI impI)
  show "length (recommend H products profile) = length (filter active products)"
    by (rule length_recommend)
next
  show "map rank (recommend H products profile) = [1..<Suc (length (filter active products))]"
    by (simp add: recommend_sort_key rank_assignRanks)
next
  fix i j
  assume a: "i < j \<and> j < length (recommend H products profile)
          \<and> decision (recommend H products profile ! j) = SHOWN"
  then have "recKey (recommend H products profile ! i) \<le> recKey (recommend H products profile ! j)"
    by (intro recommend_key_mono) simp_all
  with a show "decision (recommend H products profile ! i) = SHOWN"
    by (cases "decision (recommend H products profile ! i)")
      (auto simp: recKey_def less_eq_prod_def)
next
  fix i j
  assume a: "i < j \<and> j < length (recommend H products profile)
          \<and> decision (recommend H products profile ! i) = decision (recommend H products profile ! j)"
  then have "recKey (recommend H products profile ! i) \<le> recKey (recommend H products profile ! j)"
    by (intro recommend_key_mono) simp_all
  with a show "score (recommend H products profile ! j) \<le> score (recommend H products profile ! i)"
    by (auto simp: recKey_def less_eq_prod_def)
next
  show "map (\<lambda>r. r\<lparr>rank := 0\<rparr>)
         (filter (\<lambda>r. decision r = d \<and> score r = s) (recommend H products profile)) =
       filter (\<lambda>r. decision r = d \<and> score r = s)
         (map (recommendOne H profile) (filter active products))"
    by (rule recommend_ties_stable)
qed

theorem recommend_order_and_ranks_witness:
  "(0::nat) < 1 \<and> 1 < length (recommend asciiHost [homeLoan, creditCard, personalLoan] engagedProfile)
   \<and> map product (recommend asciiHost [homeLoan, creditCard, personalLoan] engagedProfile)
       = [personalLoan, creditCard, homeLoan]
   \<and> map decision (recommend asciiHost [homeLoan, creditCard, personalLoan] engagedProfile)
       = [SHOWN, SHOWN, HIDDEN]
   \<and> map score (recommend asciiHost [homeLoan, creditCard, personalLoan] engagedProfile)
       = [61, 48, 256 / 5]
   \<and> map rank (recommend asciiHost [homeLoan, creditCard, personalLoan] engagedProfile)
       = [1, 2, 3]
   \<and> length (filter active [homeLoan, creditCard, personalLoan]) = 3"
proof -
  let ?rs = "recommend asciiHost [homeLoan, creditCard, personalLoan] engagedProfile"
  note T = recommend_order_and_ranks
    [of asciiHost "[homeLoan, creditCard, personalLoan]" engagedProfile SHOWN 61]
  have n: "length (filter active [homeLoan, creditCard, personalLoan]) = 3"
    by (simp add: homeLoan_def creditCard_def personalLoan_def)
  from T have "length ?rs = length (filter active [homeLoan, creditCard, personalLoan])"
    by (rule conjunct1)
  then have len: "1 < length ?rs"
    by (simp only: n)
  have run: "map product ?rs = [personalLoan, creditCard, homeLoan]
     \<and> map decision ?rs = [SHOWN, SHOWN, HIDDEN]
     \<and> map score ?rs = [61, 48, 256 / 5]
     \<and> map rank ?rs = [1, 2, 3]"
    by code_simp
  from len run n show ?thesis
    by simp
qed

lemma find_first_match:
  assumes "P t" and "\<forall>x \<in> set pre. \<not> P x"
  shows "find P (pre @ t # post) = Some t"
  using assms by (induction pre) simp_all

lemma round2_zero: "round2 0 = 0"
proof -
  have "\<lfloor>1 / 2 :: rat\<rfloor> = 0"
    by (rule floor_unique) simp_all
  then show ?thesis
    by (simp add: round2_def)
qed

lemma recommendOne_excluded:
  assumes "exclusions prd = Some (pre @ t # post)" and "t \<in> set (tags profile)"
    and "\<forall>x \<in> set pre. x \<notin> set (tags profile)"
  shows "recommendOne H profile prd =
           \<lparr>product = prd, decision = HIDDEN, rank = 0, score = 0,
            why = [''Excluded: customer has '' @ dquote @ t @ dquote @ '' tag''],
            scoreBreakdown = []\<rparr>"
proof -
  have "hasExclusion prd profile"
    using assms(1,2) by (auto simp: hasExclusion_def list_ex_iff)
  moreover have "find (\<lambda>tag. tag \<in> set (tags profile)) (pre @ t # post) = Some t"
    using assms(2,3) by (intro find_first_match) simp_all
  ultimately show ?thesis
    using assms(1) by (simp add: recommendOne_def round2_zero)
qed

text \<open>
  C3: for an active product with an exclusion list that has a tag of the profile, the
  entry of the product in the result of \<^verbatim>\<open>recommend\<close> has decision \<^verbatim>\<open>HIDDEN\<close>, score 0, an
  empty score breakdown, and one explanation, which names the first tag of the exclusion
  list, in the order of that list, that the profile has.
\<close>

theorem recommend_excluded_product:
  assumes "prd \<in> set products" and "active prd" and "exclusions prd = Some excl"
    and "\<exists>x \<in> set excl. x \<in> set (tags profile)"
  shows "\<exists>pre t post. excl = pre @ t # post \<and> t \<in> set (tags profile)
           \<and> (\<forall>x \<in> set pre. x \<notin> set (tags profile))
           \<and> (\<exists>r \<in> set (recommend H products profile). product r = prd)
           \<and> (\<forall>r \<in> set (recommend H products profile). product r = prd \<longrightarrow>
                 decision r = HIDDEN \<and> score r = 0 \<and> scoreBreakdown r = []
                 \<and> why r = [''Excluded: customer has '' @ dquote @ t @ dquote @ '' tag''])"
proof -
  from assms(4) obtain pre t post where split:
    "excl = pre @ t # post" "t \<in> set (tags profile)" "\<forall>x \<in> set pre. x \<notin> set (tags profile)"
    using split_list_first_prop [of excl "\<lambda>x. x \<in> set (tags profile)"] by blast
  let ?entry = "\<lparr>product = prd, decision = HIDDEN, rank = 0, score = 0,
            why = [''Excluded: customer has '' @ dquote @ t @ dquote @ '' tag''],
            scoreBreakdown = []\<rparr>"
  have one: "recommendOne H profile prd = ?entry"
    using assms(3) split by (intro recommendOne_excluded) simp_all
  have ex: "\<exists>r \<in> set (recommend H products profile). product r = prd"
  proof -
    from recommend_entry_of_product [OF assms(1,2), of H profile]
    obtain r where r: "r \<in> set (recommend H products profile)"
      "r\<lparr>rank := 0\<rparr> = recommendOne H profile prd"
      by blast
    from r(2) have "product (r\<lparr>rank := 0\<rparr>) = prd"
      by (simp add: product_recommendOne)
    with r(1) show ?thesis by auto
  qed
  have all: "decision r = HIDDEN \<and> score r = 0 \<and> scoreBreakdown r = []
             \<and> why r = [''Excluded: customer has '' @ dquote @ t @ dquote @ '' tag'']"
    if "r \<in> set (recommend H products profile)" and "product r = prd" for r
  proof -
    from recommend_entry_is_candidate [OF that(1)] that(2) one
    have eq: "r\<lparr>rank := 0\<rparr> = ?entry"
      by simp
    have "decision (r\<lparr>rank := 0\<rparr>) = HIDDEN" "score (r\<lparr>rank := 0\<rparr>) = 0"
      "scoreBreakdown (r\<lparr>rank := 0\<rparr>) = []"
      "why (r\<lparr>rank := 0\<rparr>) = [''Excluded: customer has '' @ dquote @ t @ dquote @ '' tag'']"
      unfolding eq by simp_all
    then show ?thesis by simp
  qed
  from split ex all show ?thesis
    by blast
qed

theorem recommend_excluded_product_witness:
  "homeLoan \<in> set [homeLoan, creditCard, personalLoan] \<and> active homeLoan
   \<and> exclusions homeLoan = Some [''has-home-loan'']
   \<and> (\<exists>x \<in> set [''has-home-loan'']. x \<in> set (tags ownerProfile))
   \<and> (\<exists>r \<in> set (recommend asciiHost [homeLoan, creditCard, personalLoan] ownerProfile).
         product r = homeLoan \<and> decision r = HIDDEN \<and> score r = 0 \<and> scoreBreakdown r = []
         \<and> why r = [''Excluded: customer has '' @ dquote @ ''has-home-loan'' @ dquote @ '' tag''])"
proof -
  have hyps: "homeLoan \<in> set [homeLoan, creditCard, personalLoan]" "active homeLoan"
    "exclusions homeLoan = Some [''has-home-loan'']"
    "\<exists>x \<in> set [''has-home-loan'']. x \<in> set (tags ownerProfile)"
    by (simp_all add: homeLoan_def ownerProfile_def)
  from recommend_excluded_product [OF hyps, of asciiHost]
  obtain pre t post where split: "[''has-home-loan''] = pre @ t # post"
    and ex: "\<exists>r \<in> set (recommend asciiHost [homeLoan, creditCard, personalLoan] ownerProfile).
               product r = homeLoan"
    and all: "\<forall>r \<in> set (recommend asciiHost [homeLoan, creditCard, personalLoan] ownerProfile).
               product r = homeLoan \<longrightarrow>
                 decision r = HIDDEN \<and> score r = 0 \<and> scoreBreakdown r = []
                 \<and> why r = [''Excluded: customer has '' @ dquote @ t @ dquote @ '' tag'']"
    by blast
  from split have "t = ''has-home-loan''"
    by (cases pre) simp_all
  with ex all hyps show ?thesis
    by blast
qed











end
